theory Spec2Isabelle
  imports Main "HOL-Library.Sublist"
begin

section \<open>Time\<close>

text \<open>
  A Python \<open>datetime\<close> (timezone aware, UTC) is the integer number of microseconds
  since the epoch, a \<open>timedelta\<close> the integer number of microseconds. Every read of
  the clock (\<open>utc_now()\<close>, \<open>datetime.now(tz)\<close>) is a parameter \<open>now\<close> of the function
  that reads it.
\<close>

type_synonym datetime = int
type_synonym timedelta = int
type_synonym uuid = nat

datatype py_error = OverflowError

text \<open>
  \<open>datetime.min\<close> (0001-01-01 00:00:00) and \<open>datetime.max\<close> (9999-12-31
  23:59:59.999999), in microseconds since the epoch.
\<close>

definition datetime_min :: datetime where
  "datetime_min = - 62135596800000000"

definition datetime_max :: datetime where
  "datetime_max = 253402300799999999"

text \<open>
  \<open>timedelta(hours=h)\<close>: the constructor raises \<open>OverflowError\<close> when the number of
  whole days (rounded down) has a magnitude above 999999999.
\<close>

definition timedelta_hours :: "int \<Rightarrow> py_error + timedelta" where
  "timedelta_hours h =
     (if - 999999999 \<le> h div 24 \<and> h div 24 \<le> 999999999
      then Inr (h * 3600000000) else Inl OverflowError)"

text \<open>\<open>datetime + timedelta\<close>: raises \<open>OverflowError\<close> when the sum leaves the range.\<close>

definition datetime_add :: "datetime \<Rightarrow> timedelta \<Rightarrow> py_error + datetime" where
  "datetime_add dt td =
     (if datetime_min \<le> dt + td \<and> dt + td \<le> datetime_max
      then Inr (dt + td) else Inl OverflowError)"

text \<open>\<open>app/utils/datetime_utils.py\<close>: \<open>add_hours\<close>, \<open>dt + timedelta(hours=hours)\<close>.\<close>

definition add_hours :: "datetime \<Rightarrow> int \<Rightarrow> py_error + datetime" where
  "add_hours dt hours =
     (case timedelta_hours hours of
        Inl e \<Rightarrow> Inl e
      | Inr td \<Rightarrow> datetime_add dt td)"

section \<open>Enumerations\<close>

datatype SLAStatus = ACTIVE | PAUSED | BREACHED | MET

datatype IncidentStatus = OPEN | IN_PROGRESS | RESOLVED | CLOSED

datatype IncidentPriority = CRITICAL | HIGH | MEDIUM | LOW

text \<open>The \<open>.value\<close> of an \<open>IncidentPriority\<close> member.\<close>

fun priority_value :: "IncidentPriority \<Rightarrow> string" where
  "priority_value CRITICAL = ''critical''"
| "priority_value HIGH = ''high''"
| "priority_value MEDIUM = ''medium''"
| "priority_value LOW = ''low''"

section \<open>Settings and the SLA policy lookup\<close>

text \<open>
  \<open>app/config.py\<close>: the eight SLA fields of \<open>Settings\<close> (hours). The other settings
  play no part in the SLA engine and are left out.
\<close>

record Settings =
  sla_critical_response :: int
  sla_critical_resolution :: int
  sla_high_response :: int
  sla_high_resolution :: int
  sla_medium_response :: int
  sla_medium_resolution :: int
  sla_low_response :: int
  sla_low_resolution :: int

text \<open>The \<open>Field(default=...)\<close> values.\<close>

definition default_settings :: Settings where
  "default_settings =
     \<lparr>sla_critical_response = 1, sla_critical_resolution = 4,
      sla_high_response = 4, sla_high_resolution = 24,
      sla_medium_response = 8, sla_medium_resolution = 72,
      sla_low_response = 24, sla_low_resolution = 168\<rparr>"

text \<open>
  \<open>str.lower()\<close>. A \<open>char\<close> is a code point below 256: the ASCII capitals and the
  Latin-1 capitals (\<open>0xC0\<close> to \<open>0xDE\<close> without the multiplication sign \<open>0xD7\<close>) move
  up by 32, every other character stays.
\<close>

definition lower_char :: "char \<Rightarrow> char" where
  "lower_char c =
     (let n = (of_char c :: nat)
      in if (65 \<le> n \<and> n \<le> 90) \<or> (192 \<le> n \<and> n \<le> 222 \<and> n \<noteq> 215)
         then char_of (n + 32) else c)"

definition lower :: "string \<Rightarrow> string" where
  "lower s = map lower_char s"

text \<open>The dictionary \<open>{"response_hours": ..., "resolution_hours": ...}\<close>.\<close>

record sla_deadlines =
  response_hours :: int
  resolution_hours :: int

text \<open>\<open>Settings.get_sla_deadlines\<close>, with its chain of comparisons in the source's order.\<close>

definition get_sla_deadlines :: "Settings \<Rightarrow> string \<Rightarrow> sla_deadlines" where
  "get_sla_deadlines self priority =
     (let priority_lower = lower priority
      in if priority_lower = ''critical'' then
           \<lparr>response_hours = sla_critical_response self,
            resolution_hours = sla_critical_resolution self\<rparr>
         else if priority_lower = ''high'' then
           \<lparr>response_hours = sla_high_response self,
            resolution_hours = sla_high_resolution self\<rparr>
         else if priority_lower = ''medium'' then
           \<lparr>response_hours = sla_medium_response self,
            resolution_hours = sla_medium_resolution self\<rparr>
         else if priority_lower = ''low'' then
           \<lparr>response_hours = sla_low_response self,
            resolution_hours = sla_low_resolution self\<rparr>
         else
           \<lparr>response_hours = sla_medium_response self,
            resolution_hours = sla_medium_resolution self\<rparr>)"

section \<open>Entities\<close>

text \<open>
  \<open>app/models/sla.py\<close>, \<open>app/models/incident.py\<close>, \<open>app/models/user.py\<close>. A UUID is an
  opaque natural number. Two records cannot share a field name, so the fields \<open>id\<close> and
  \<open>status\<close> carry the entity's name.
\<close>

record SLA =
  sla_id :: uuid
  incident_id :: uuid
  response_deadline :: datetime
  resolution_deadline :: datetime
  sla_status :: SLAStatus
  response_at :: "datetime option"
  paused_at :: "datetime option"
  paused_duration :: timedelta
  breach_notified_at :: "datetime option"

record Incident =
  inc_id :: uuid
  title :: string
  description :: string
  inc_status :: IncidentStatus
  priority :: IncidentPriority
  reporter_id :: uuid
  assignee_id :: "uuid option"
  resolved_at :: "datetime option"
  closed_at :: "datetime option"
  deleted_at :: "datetime option"

record User =
  user_id :: uuid
  email :: string
  username :: string
  full_name :: string
  hashed_password :: string
  is_active :: bool
  is_superuser :: bool

subsection \<open>Derived queries of the SLA\<close>

text \<open>
  The properties \<open>SLA.is_response_breached\<close> and \<open>SLA.is_resolution_breached\<close>. A
  \<open>datetime\<close> is always truthy, so \<open>if self.response_at\<close> tests for \<open>None\<close>.
\<close>

definition is_response_breached :: "datetime \<Rightarrow> SLA \<Rightarrow> bool" where
  "is_response_breached now self =
     (if response_at self \<noteq> None then False else now > response_deadline self)"

definition is_resolution_breached :: "datetime \<Rightarrow> SLA \<Rightarrow> bool" where
  "is_resolution_breached now self =
     (if sla_status self = MET then False else now > resolution_deadline self)"

section \<open>The database\<close>

text \<open>
  The three tables, each a list of rows in the order in which a query returns them.
  \<open>id\<close> is the primary key of every table, so a lookup by \<open>id\<close> has at most one row
  and is the first row found. The ORM writes a changed attribute back with
  \<open>UPDATE ... WHERE id = ...\<close>: the rows of that \<open>id\<close> get the new attribute values.
  Database operations themselves (connect, execute, flush, commit) are taken to succeed.
\<close>

record db =
  incidents :: "Incident list"
  slas :: "SLA list"
  users :: "User list"

definition update_incident_row :: "uuid \<Rightarrow> (Incident \<Rightarrow> Incident) \<Rightarrow> Incident list \<Rightarrow> Incident list" where
  "update_incident_row k f rows = map (\<lambda>r. if inc_id r = k then f r else r) rows"

definition update_sla_row :: "uuid \<Rightarrow> (SLA \<Rightarrow> SLA) \<Rightarrow> SLA list \<Rightarrow> SLA list" where
  "update_sla_row k f rows = map (\<lambda>r. if sla_id r = k then f r else r) rows"

text \<open>The relationship \<open>Incident.sla\<close> (\<open>uselist=False\<close>): the SLA row of the incident, if any.\<close>

definition incident_sla :: "db \<Rightarrow> Incident \<Rightarrow> SLA option" where
  "incident_sla d incident = find (\<lambda>s. incident_id s = inc_id incident) (slas d)"

section \<open>The incident service\<close>

text \<open>
  \<open>IncidentCreate\<close>: the validated request body. Its fields \<open>title\<close>, \<open>description\<close>
  and \<open>priority\<close> carry the prefix \<open>ic_\<close>, the names being taken by \<open>Incident\<close>.
\<close>

record IncidentCreate =
  ic_title :: string
  ic_description :: string
  ic_priority :: IncidentPriority

text \<open>
  \<open>IncidentService.create_incident\<close>. The primary keys that the database generates for
  the two new rows are the parameters \<open>new_incident_id\<close> and \<open>new_sla_id\<close>; the column
  defaults fill the fields that the constructor calls leave out. Both rows are written
  by the one \<open>commit\<close>; when \<open>add_hours\<close> raises, the exception leaves the method
  before the commit and no row is written.
\<close>

definition create_incident ::
  "Settings \<Rightarrow> db \<Rightarrow> IncidentCreate \<Rightarrow> uuid \<Rightarrow> datetime \<Rightarrow> uuid \<Rightarrow> uuid
     \<Rightarrow> py_error + db \<times> Incident" where
  "create_incident settings d incident_data reporter now new_incident_id new_sla_id =
     (let incident =
            \<lparr>inc_id = new_incident_id,
             title = ic_title incident_data,
             description = ic_description incident_data,
             inc_status = OPEN,
             priority = ic_priority incident_data,
             reporter_id = reporter,
             assignee_id = None, resolved_at = None, closed_at = None, deleted_at = None\<rparr>;
          sla_deadlines = get_sla_deadlines settings (priority_value (priority incident))
      in case add_hours now (response_hours sla_deadlines) of
           Inl e \<Rightarrow> Inl e
         | Inr response \<Rightarrow>
             (case add_hours now (resolution_hours sla_deadlines) of
                Inl e \<Rightarrow> Inl e
              | Inr resolution \<Rightarrow>
                  (let sla =
                         \<lparr>sla_id = new_sla_id,
                          incident_id = inc_id incident,
                          response_deadline = response,
                          resolution_deadline = resolution,
                          sla_status = ACTIVE,
                          response_at = None, paused_at = None, paused_duration = 0,
                          breach_notified_at = None\<rparr>
                   in Inr (d\<lparr>incidents := incidents d @ [incident], slas := slas d @ [sla]\<rparr>,
                           incident))))"

text \<open>\<open>IncidentService.get_incident\<close>: the row of that id that is not soft-deleted.\<close>

definition get_incident :: "db \<Rightarrow> uuid \<Rightarrow> Incident option" where
  "get_incident d k = find (\<lambda>i. inc_id i = k \<and> deleted_at i = None) (incidents d)"

text \<open>
  \<open>IncidentService.update_status\<close>. \<open>set_status_fields\<close> is what the method assigns to
  the incident object, \<open>resolving\<close> the condition of its first \<open>if\<close>; the SLA is touched
  inside that \<open>if\<close> only, and only when the incident has one.
\<close>

definition resolving :: "IncidentStatus \<Rightarrow> Incident \<Rightarrow> bool" where
  "resolving status incident = (status = RESOLVED \<and> resolved_at incident = None)"

definition set_status_fields :: "IncidentStatus \<Rightarrow> datetime \<Rightarrow> Incident \<Rightarrow> Incident" where
  "set_status_fields status now incident =
     (let i1 = incident\<lparr>inc_status := status\<rparr>;
          i2 = (if status = RESOLVED \<and> resolved_at i1 = None
                then i1\<lparr>resolved_at := Some now\<rparr> else i1)
      in if status = CLOSED \<and> closed_at i2 = None then i2\<lparr>closed_at := Some now\<rparr> else i2)"

definition update_status :: "db \<Rightarrow> uuid \<Rightarrow> IncidentStatus \<Rightarrow> datetime \<Rightarrow> db \<times> Incident option" where
  "update_status d k status now =
     (case get_incident d k of
        None \<Rightarrow> (d, None)
      | Some incident \<Rightarrow>
          (let slas' =
                 (if resolving status incident then
                    (case incident_sla d incident of
                       None \<Rightarrow> slas d
                     | Some sla \<Rightarrow> update_sla_row (sla_id sla) (\<lambda>r. r\<lparr>sla_status := MET\<rparr>) (slas d))
                  else slas d)
           in (d\<lparr>incidents := update_incident_row k (set_status_fields status now) (incidents d),
                  slas := slas'\<rparr>,
               Some (set_status_fields status now incident))))"

section \<open>The breach scanner\<close>

text \<open>
  \<open>app/tasks/sla_checker.py\<close>: \<open>check_sla_breaches\<close>. The statement joins every SLA to
  its incident (inner join on the incident's primary key) and the incident to its
  assignee (outer join on the user's primary key), and keeps the rows of the \<open>where\<close>
  clause.
\<close>

definition joined_rows :: "db \<Rightarrow> (SLA \<times> Incident \<times> User option) list" where
  "joined_rows d =
     concat (map (\<lambda>sla.
       case find (\<lambda>i. inc_id i = incident_id sla) (incidents d) of
         None \<Rightarrow> []
       | Some incident \<Rightarrow>
           [(sla, incident,
             case assignee_id incident of
               None \<Rightarrow> None
             | Some a \<Rightarrow> find (\<lambda>u. user_id u = a) (users d))]) (slas d))"

definition breach_where :: "datetime \<Rightarrow> SLA \<Rightarrow> Incident \<Rightarrow> bool" where
  "breach_where now sla incident =
     (sla_status sla = ACTIVE
      \<and> ((response_at sla = None \<and> response_deadline sla < now)
         \<or> (resolution_deadline sla < now \<and> resolved_at incident = None))
      \<and> breach_notified_at sla = None)"

definition breach_candidates :: "datetime \<Rightarrow> db \<Rightarrow> (SLA \<times> Incident \<times> User option) list" where
  "breach_candidates now d = filter (\<lambda>(sla, incident, assignee). breach_where now sla incident) (joined_rows d)"

text \<open>
  The keyword arguments of \<open>send_sla_breach_notification.delay\<close>: one message on the
  task queue. A broker says, for a message, whether \<open>delay\<close> enqueues it (\<open>True\<close>) or
  raises; it is the one call of the loop body that can fail.
\<close>

record breach_notification =
  n_incident_id :: uuid
  n_assignee_email :: string
  n_breach_type :: string

type_synonym broker = "breach_notification \<Rightarrow> bool"

text \<open>
  The state of a run: the SLA rows as the open session sees them, the two counters, and
  the messages enqueued so far. What \<open>delay\<close> has enqueued stays enqueued whatever
  happens to the session afterwards.
\<close>

record scan_state =
  pending :: "SLA list"
  breaches_detected :: nat
  notifications_sent :: nat
  queue :: "breach_notification list"

definition mark_breached :: "datetime \<Rightarrow> SLA \<Rightarrow> SLA" where
  "mark_breached now sla = sla\<lparr>sla_status := BREACHED, breach_notified_at := Some now\<rparr>"

definition breach_type_of :: "SLA \<Rightarrow> string" where
  "breach_type_of sla = (if response_at sla = None then ''Response'' else ''Resolution'')"

text \<open>
  The body of the \<open>for\<close> loop on one result row. \<open>Inl q\<close>: \<open>delay\<close> raised, with \<open>q\<close> the
  messages enqueued before; \<open>Inr st\<close>: the row is done. \<open>assignee and assignee.email\<close>
  holds for a user whose email is not the empty string.
\<close>

definition process_row ::
  "broker \<Rightarrow> datetime \<Rightarrow> SLA \<times> Incident \<times> User option \<Rightarrow> scan_state
     \<Rightarrow> breach_notification list + scan_state" where
  "process_row delay_ok now row st =
     (case row of (sla, incident, assignee) \<Rightarrow>
        (let st1 = st\<lparr>breaches_detected := breaches_detected st + 1,
                      pending := update_sla_row (sla_id sla) (mark_breached now) (pending st)\<rparr>;
             breach_type = breach_type_of sla
         in case assignee of
              None \<Rightarrow> Inr st1
            | Some u \<Rightarrow>
                if email u = [] then Inr st1
                else
                  (let n = \<lparr>n_incident_id = inc_id incident,
                            n_assignee_email = email u,
                            n_breach_type = breach_type\<rparr>
                   in if delay_ok n
                      then Inr (st1\<lparr>queue := queue st1 @ [n],
                                    notifications_sent := notifications_sent st1 + 1\<rparr>)
                      else Inl (queue st1))))"

fun scan_loop ::
  "broker \<Rightarrow> datetime \<Rightarrow> (SLA \<times> Incident \<times> User option) list \<Rightarrow> scan_state
     \<Rightarrow> breach_notification list + scan_state" where
  "scan_loop delay_ok now [] st = Inr st"
| "scan_loop delay_ok now (row # rows) st =
     (case process_row delay_ok now row st of
        Inl q \<Rightarrow> Inl q
      | Inr st' \<Rightarrow> scan_loop delay_ok now rows st')"

text \<open>
  The returned dictionary: \<open>{"status": "success", "breaches_detected": n,
  "notifications_sent": m}\<close> or \<open>{"status": "error", "error": ...}\<close>.
\<close>

datatype scan_result = Success nat nat | Error

text \<open>
  The task. The session is committed once, after the loop; an exception leaves the
  \<open>with\<close> block before the commit, so the database keeps the rows it had. The result is
  the database after the run, the messages enqueued, and the returned dictionary.
\<close>

definition check_sla_breaches :: "broker \<Rightarrow> datetime \<Rightarrow> db \<Rightarrow> db \<times> breach_notification list \<times> scan_result" where
  "check_sla_breaches delay_ok now d =
     (case scan_loop delay_ok now (breach_candidates now d)
             \<lparr>pending = slas d, breaches_detected = 0, notifications_sent = 0, queue = []\<rparr> of
        Inl q \<Rightarrow> (d, q, Error)
      | Inr st \<Rightarrow> (d\<lparr>slas := pending st\<rparr>, queue st,
                   Success (breaches_detected st) (notifications_sent st)))"

section \<open>Pause and resume\<close>

text \<open>
  The source declares the columns \<open>paused_at\<close> and \<open>paused_duration\<close> and the empty
  request schemas \<open>SLAPauseRequest\<close> and \<open>SLAResumeRequest\<close>, but no function that
  pauses or resumes an SLA, and nothing in it reads or writes the two columns.
\<close>

text \<open>
  Modelled from the spec: the error of a transition whose precondition does not hold
  (\<open>InvalidTransition\<close>), missing from the source.
\<close>

datatype sla_error = InvalidTransition

text \<open>
  Modelled from the spec: \<open>pause(now)\<close>, missing from the source. Valid only from
  ACTIVE; sets \<open>paused_at = now\<close> and the status PAUSED; fails with an explicit error
  otherwise.
\<close>

definition pause :: "datetime \<Rightarrow> SLA \<Rightarrow> sla_error + SLA" where
  "pause now sla =
     (if sla_status sla = ACTIVE
      then Inr (sla\<lparr>paused_at := Some now, sla_status := PAUSED\<rparr>)
      else Inl InvalidTransition)"

text \<open>
  Modelled from the spec: \<open>resume(now)\<close>, missing from the source. Valid only from
  PAUSED; adds \<open>now - paused_at\<close> to the accumulated paused duration, clears
  \<open>paused_at\<close> and sets the status ACTIVE; fails if not PAUSED. A PAUSED row without
  \<open>paused_at\<close> has nothing to add and fails too.
\<close>

definition resume :: "datetime \<Rightarrow> SLA \<Rightarrow> sla_error + SLA" where
  "resume now sla =
     (if sla_status sla = PAUSED then
        (case paused_at sla of
           None \<Rightarrow> Inl InvalidTransition
         | Some t \<Rightarrow>
             Inr (sla\<lparr>paused_duration := paused_duration sla + (now - t),
                      paused_at := None, sla_status := ACTIVE\<rparr>))
      else Inl InvalidTransition)"

section \<open>Notions used to state the properties of the scanner\<close>

text \<open>
  \<open>row_message\<close> is the message that the loop body hands to \<open>delay\<close> for a result row,
  if it hands one over; \<open>mark_ids\<close> marks as breached the rows whose id is in a given
  set. Neither is a function of the source: they name, for the statements below, what
  \<open>process_row\<close> does inline.
\<close>

definition row_message :: "SLA \<times> Incident \<times> User option \<Rightarrow> breach_notification option" where
  "row_message row =
     (case row of (sla, incident, assignee) \<Rightarrow>
        (case assignee of
           None \<Rightarrow> None
         | Some u \<Rightarrow>
             if email u = [] then None
             else Some \<lparr>n_incident_id = inc_id incident, n_assignee_email = email u,
                        n_breach_type = breach_type_of sla\<rparr>))"

definition mark_ids :: "datetime \<Rightarrow> uuid set \<Rightarrow> SLA list \<Rightarrow> SLA list" where
  "mark_ids now ks rows = map (\<lambda>r. if sla_id r \<in> ks then mark_breached now r else r) rows"

section \<open>Example data\<close>

text \<open>
  Two open incidents assigned to the same user, each with an active SLA whose response
  deadline is 50 and whose resolution deadline is 100.
\<close>

definition ex_user :: User where
  "ex_user = \<lparr>user_id = 7, email = ''dev@example.com'', username = ''dev'',
      full_name = ''Dev'', hashed_password = ''x'', is_active = True, is_superuser = False\<rparr>"

definition ex_incident :: "uuid \<Rightarrow> Incident" where
  "ex_incident k = \<lparr>inc_id = k, title = ''Outage'', description = ''Service down'',
      inc_status = OPEN, priority = CRITICAL, reporter_id = 3, assignee_id = Some 7,
      resolved_at = None, closed_at = None, deleted_at = None\<rparr>"

definition ex_sla :: "uuid \<Rightarrow> SLA" where
  "ex_sla k = \<lparr>sla_id = 10 + k, incident_id = k, response_deadline = 50,
      resolution_deadline = 100, sla_status = ACTIVE, response_at = None, paused_at = None,
      paused_duration = 0, breach_notified_at = None\<rparr>"

definition ex_db :: db where
  "ex_db = \<lparr>incidents = [ex_incident 1, ex_incident 2], slas = [ex_sla 1, ex_sla 2],
      users = [ex_user]\<rparr>"

definition ex_message :: "uuid \<Rightarrow> breach_notification" where
  "ex_message k = \<lparr>n_incident_id = k, n_assignee_email = ''dev@example.com'',
      n_breach_type = ''Response''\<rparr>"

text \<open>A database whose only incident is soft-deleted.\<close>

definition ex_deleted_db :: db where
  "ex_deleted_db = \<lparr>incidents = [(ex_incident 1)\<lparr>deleted_at := Some 10\<rparr>], slas = [ex_sla 1],
      users = [ex_user]\<rparr>"



section \<open>The policy lookup\<close>

lemma lower_known [simp]:
  "lower ''critical'' = ''critical''" "lower ''high'' = ''high''"
  "lower ''medium'' = ''medium''" "lower ''low'' = ''low''"
  by (simp_all add: lower_def lower_char_def)

lemma get_sla_deadlines_value:
  "get_sla_deadlines s (priority_value p) =
     (case p of
        CRITICAL \<Rightarrow> \<lparr>response_hours = sla_critical_response s,
                     resolution_hours = sla_critical_resolution s\<rparr>
      | HIGH \<Rightarrow> \<lparr>response_hours = sla_high_response s,
                 resolution_hours = sla_high_resolution s\<rparr>
      | MEDIUM \<Rightarrow> \<lparr>response_hours = sla_medium_response s,
                   resolution_hours = sla_medium_resolution s\<rparr>
      | LOW \<Rightarrow> \<lparr>response_hours = sla_low_response s,
                resolution_hours = sla_low_resolution s\<rparr>)"
  by (cases p) (simp_all add: get_sla_deadlines_def)

text \<open>
  C7. The lookup is a total function of the settings and the priority string: it has
  no failing branch, and the result is determined by its two arguments. At the four
  priority values it returns the configured hours of that priority (with the default
  settings 1/4, 4/24, 8/72 and 24/168). The source compares the lower-cased string, so a
  priority is known by its name in any letter case; at every string that is none of the
  four names once lower-cased it returns the MEDIUM hours.
\<close>

theorem get_sla_deadlines_total:
  "get_sla_deadlines default_settings ''critical'' = \<lparr>response_hours = 1, resolution_hours = 4\<rparr>
   \<and> get_sla_deadlines default_settings ''high'' = \<lparr>response_hours = 4, resolution_hours = 24\<rparr>
   \<and> get_sla_deadlines default_settings ''medium'' = \<lparr>response_hours = 8, resolution_hours = 72\<rparr>
   \<and> get_sla_deadlines default_settings ''low'' = \<lparr>response_hours = 24, resolution_hours = 168\<rparr>
   \<and> get_sla_deadlines s ''critical'' =
        \<lparr>response_hours = sla_critical_response s, resolution_hours = sla_critical_resolution s\<rparr>
   \<and> get_sla_deadlines s ''high'' =
        \<lparr>response_hours = sla_high_response s, resolution_hours = sla_high_resolution s\<rparr>
   \<and> get_sla_deadlines s ''medium'' =
        \<lparr>response_hours = sla_medium_response s, resolution_hours = sla_medium_resolution s\<rparr>
   \<and> get_sla_deadlines s ''low'' =
        \<lparr>response_hours = sla_low_response s, resolution_hours = sla_low_resolution s\<rparr>
   \<and> (lower p = ''critical'' \<longrightarrow> get_sla_deadlines s p = get_sla_deadlines s ''critical'')
   \<and> (lower p = ''high'' \<longrightarrow> get_sla_deadlines s p = get_sla_deadlines s ''high'')
   \<and> (lower p = ''medium'' \<longrightarrow> get_sla_deadlines s p = get_sla_deadlines s ''medium'')
   \<and> (lower p = ''low'' \<longrightarrow> get_sla_deadlines s p = get_sla_deadlines s ''low'')
   \<and> (lower p \<notin> {''critical'', ''high'', ''medium'', ''low''} \<longrightarrow>
        get_sla_deadlines s p =
          \<lparr>response_hours = sla_medium_response s, resolution_hours = sla_medium_resolution s\<rparr>)"
  by (simp add: get_sla_deadlines_def default_settings_def)

theorem get_sla_deadlines_total_witness:
  "lower ''urgent'' \<notin> {''critical'', ''high'', ''medium'', ''low''}
   \<and> get_sla_deadlines default_settings ''urgent'' = \<lparr>response_hours = 8, resolution_hours = 72\<rparr>
   \<and> lower ''High'' = ''high''
   \<and> get_sla_deadlines default_settings ''High'' = \<lparr>response_hours = 4, resolution_hours = 24\<rparr>"
proof -
  have u: "lower ''urgent'' \<notin> {''critical'', ''high'', ''medium'', ''low''}"
    by (simp add: lower_def lower_char_def)
  have h: "lower ''High'' = ''high''"
    by code_simp
  from get_sla_deadlines_total [of default_settings "''urgent''"] u
  have 1: "get_sla_deadlines default_settings ''urgent'' = \<lparr>response_hours = 8, resolution_hours = 72\<rparr>"
    by (simp add: default_settings_def)
  from get_sla_deadlines_total [of default_settings "''High''"] h
  have 2: "get_sla_deadlines default_settings ''High'' = \<lparr>response_hours = 4, resolution_hours = 24\<rparr>"
    by simp
  from u h 1 2 show ?thesis by simp
qed

lemmas ex_defs = ex_db_def ex_sla_def ex_incident_def ex_user_def ex_message_def

lemmas scan_defs = check_sla_breaches_def breach_candidates_def joined_rows_def breach_where_def
  process_row_def update_sla_row_def mark_breached_def breach_type_of_def

section \<open>The scanner's loop\<close>

lemma process_row_cases:
  "process_row d now row st =
     (let st1 = st\<lparr>breaches_detected := breaches_detected st + 1,
                   pending := update_sla_row (sla_id (fst row)) (mark_breached now) (pending st)\<rparr>
      in case row_message row of
           None \<Rightarrow> Inr st1
         | Some n \<Rightarrow> if d n then Inr (st1\<lparr>queue := queue st @ [n],
                                          notifications_sent := notifications_sent st + 1\<rparr>)
                     else Inl (queue st))"
  by (cases row) (simp add: process_row_def row_message_def Let_def split: option.splits)

lemma mark_breached_idem [simp]: "mark_breached now (mark_breached now r) = mark_breached now r"
  by (simp add: mark_breached_def)

lemma sla_id_mark [simp]: "sla_id (mark_breached now r) = sla_id r"
  by (simp add: mark_breached_def)

lemma mark_ids_step:
  "mark_ids now ks (update_sla_row k (mark_breached now) rows) = mark_ids now (insert k ks) rows"
  by (auto simp: mark_ids_def update_sla_row_def)

lemma mark_ids_empty [simp]: "mark_ids now {} rows = rows"
  by (simp add: mark_ids_def)

lemma scan_loop_Inr:
  "scan_loop d now rows st = Inr st' \<Longrightarrow>
     pending st' = mark_ids now (sla_id ` fst ` set rows) (pending st)
     \<and> breaches_detected st' = breaches_detected st + length rows
     \<and> queue st' = queue st @ List.map_filter row_message rows
     \<and> notifications_sent st' = notifications_sent st + length (List.map_filter row_message rows)
     \<and> (\<forall>n \<in> set (List.map_filter row_message rows). d n)"
proof (induction rows arbitrary: st)
  case Nil
  then show ?case by (simp add:)
next
  case (Cons row rows)
  from Cons.prems obtain st1 where
    1: "process_row d now row st = Inr st1" and 2: "scan_loop d now rows st1 = Inr st'"
    by (auto split: sum.splits)
  note ih = Cons.IH [OF 2]
  show ?case
  proof (cases "row_message row")
    case None
    with 1 have "st1 = st\<lparr>breaches_detected := breaches_detected st + 1,
                   pending := update_sla_row (sla_id (fst row)) (mark_breached now) (pending st)\<rparr>"
      by (simp add: process_row_cases)
    with ih None show ?thesis
      by (simp add: mark_ids_step)
  next
    case (Some n)
    with 1 have "d n" and "st1 = st\<lparr>breaches_detected := breaches_detected st + 1,
                   pending := update_sla_row (sla_id (fst row)) (mark_breached now) (pending st),
                   queue := queue st @ [n],
                   notifications_sent := notifications_sent st + 1\<rparr>"
      by (simp_all add: process_row_cases split: if_splits)
    with ih Some show ?thesis
      by (simp add: mark_ids_step)
  qed
qed

lemma scan_loop_Inl:
  "scan_loop d now rows st = Inl q \<Longrightarrow>
     \<exists>rows1 row rows2 n. rows = rows1 @ row # rows2
        \<and> q = queue st @ List.map_filter row_message rows1
        \<and> row_message row = Some n \<and> \<not> d n"
proof (induction rows arbitrary: st)
  case Nil
  then show ?case by simp
next
  case (Cons row rows)
  show ?case
  proof (cases "process_row d now row st")
    case (Inl q')
    with Cons.prems have q: "q' = q" by simp
    from Inl obtain n where "row_message row = Some n" "\<not> d n" "q' = queue st"
      by (auto simp: process_row_cases Let_def split: option.splits if_splits)
    with q have "row # rows = [] @ row # rows \<and> q = queue st @ List.map_filter row_message []
        \<and> row_message row = Some n \<and> \<not> d n"
      by (simp add:)
    then show ?thesis by blast
  next
    case (Inr st1)
    with Cons.prems have 2: "scan_loop d now rows st1 = Inl q" by simp
    from Cons.IH [OF 2] obtain rows1 r rows2 n where
      a: "rows = rows1 @ r # rows2" "q = queue st1 @ List.map_filter row_message rows1"
         "row_message r = Some n" "\<not> d n"
      by blast
    from Inr have "queue st1 = queue st @ List.map_filter row_message [row]"
      by (auto simp: process_row_cases Let_def split: option.splits if_splits)
    with a have "row # rows = (row # rows1) @ r # rows2
        \<and> q = queue st @ List.map_filter row_message (row # rows1)
        \<and> row_message r = Some n \<and> \<not> d n"
      by (simp add: List.map_filter_def)
    then show ?thesis by blast
  qed
qed

lemma scan_loop_accepts:
  "\<forall>n \<in> set (List.map_filter row_message rows). d n \<Longrightarrow> \<exists>st'. scan_loop d now rows st = Inr st'"
proof (induction rows arbitrary: st)
  case Nil
  then show ?case by simp
next
  case (Cons row rows)
  then show ?case
    by (cases "row_message row")
       (auto simp: process_row_cases Let_def)
qed


lemma find_SomeD: "find P xs = Some x \<Longrightarrow> P x \<and> x \<in> set xs"
  by (induction xs) (auto split: if_splits)

lemma joined_rows_incident:
  "(sla, incident, assignee) \<in> set (joined_rows d) \<Longrightarrow>
     inc_id incident = incident_id sla \<and> sla \<in> set (slas d) \<and> incident \<in> set (incidents d)"
  by (auto simp: joined_rows_def split: option.splits dest: find_SomeD [OF sym])

lemma subseq_joined_rows: "subseq (map fst (joined_rows d)) (slas d)"
proof -
  have "subseq (map fst (concat (map f xs))) xs"
    if "\<And>x. f x = [] \<or> (\<exists>y. f x = [(x, y)])" for xs :: "'a list" and f :: "'a \<Rightarrow> ('a \<times> 'b) list"
  proof (induction xs)
    case Nil
    show ?case by simp
  next
    case (Cons x xs)
    from that [of x] show ?case
    proof
      assume "f x = []"
      with Cons show ?thesis by (simp add: list_emb_Cons)
    next
      assume "\<exists>y. f x = [(x, y)]"
      with Cons show ?thesis by auto
    qed
  qed
  then show ?thesis
    unfolding joined_rows_def by (rule meta_mp) (auto split: option.splits)
qed

lemma subseq_breach_candidates: "subseq (map fst (breach_candidates now d)) (slas d)"
proof -
  have "subseq (map fst (breach_candidates now d)) (map fst (joined_rows d))"
    unfolding breach_candidates_def by (simp add: subseq_map)
  then show ?thesis
    using subseq_joined_rows subseq_order.order_trans by blast
qed

lemma breach_candidates_D:
  "(sla, incident, assignee) \<in> set (breach_candidates now d) \<Longrightarrow>
     inc_id incident = incident_id sla \<and> sla \<in> set (slas d) \<and> incident \<in> set (incidents d)
     \<and> breach_where now sla incident"
  by (auto simp: breach_candidates_def dest: joined_rows_incident)

lemma row_message_incident:
  "row_message (sla, incident, assignee) = Some n \<Longrightarrow> n_incident_id n = inc_id incident"
  by (auto simp: row_message_def split: option.splits if_splits)

lemma message_ids_subseq:
  "subseq (map n_incident_id (List.map_filter row_message rows)) (map (\<lambda>(s, i, u). inc_id i) rows)"
proof (induction rows)
  case Nil
  show ?case by simp
next
  case (Cons row rows)
  obtain s i u where row: "row = (s, i, u)" by (cases row)
  show ?case
  proof (cases "row_message row")
    case None
    with Cons show ?thesis by (simp add: list_emb_Cons)
  next
    case (Some n)
    with row have "n_incident_id n = inc_id i" by (simp add: row_message_incident)
    with Some Cons row show ?thesis by simp
  qed
qed


lemma subseq_distinct: "subseq xs ys \<Longrightarrow> distinct ys \<Longrightarrow> distinct xs"
proof (induction rule: list_emb.induct)
  case (list_emb_Cons2 x y xs ys)
  then show ?case using list_emb_set [of "(=)" xs ys] by auto
qed auto

lemma subseq_set: "subseq xs ys \<Longrightarrow> set xs \<subseteq> set ys"
  using list_emb_set [of "(=)" xs ys] by auto


lemma map_filter_append: "List.map_filter f (xs @ ys) = List.map_filter f xs @ List.map_filter f ys"
  by (simp add: List.map_filter_def)

lemma set_map_filter: "set (List.map_filter f xs) = {y. \<exists>x \<in> set xs. f x = Some y}"
  by (induction xs) (auto split: option.splits)

lemma check_sla_breaches_Success:
  assumes "check_sla_breaches d now db0 = (db1, out, Success n m)"
  shows "db1 = db0\<lparr>slas := mark_ids now (sla_id ` fst ` set (breach_candidates now db0)) (slas db0)\<rparr>
         \<and> out = List.map_filter row_message (breach_candidates now db0)
         \<and> n = length (breach_candidates now db0) \<and> m = length out
         \<and> (\<forall>x \<in> set out. d x)"
proof -
  let ?st0 = "\<lparr>pending = slas db0, breaches_detected = 0, notifications_sent = 0, queue = []\<rparr>"
  from assms obtain st where
    run: "scan_loop d now (breach_candidates now db0) ?st0 = Inr st"
    and res: "db1 = db0\<lparr>slas := pending st\<rparr>" "out = queue st"
      "n = breaches_detected st" "m = notifications_sent st"
    by (auto simp: check_sla_breaches_def split: sum.splits)
  from scan_loop_Inr [OF run] res show ?thesis by simp
qed

lemma check_sla_breaches_Error:
  assumes "check_sla_breaches d now db0 = (db1, out, Error)"
  shows "db1 = db0 \<and> prefix out (List.map_filter row_message (breach_candidates now db0))
         \<and> (\<exists>x \<in> set (List.map_filter row_message (breach_candidates now db0)). \<not> d x)"
proof -
  let ?st0 = "\<lparr>pending = slas db0, breaches_detected = 0, notifications_sent = 0, queue = []\<rparr>"
  from assms have run: "scan_loop d now (breach_candidates now db0) ?st0 = Inl out" and "db1 = db0"
    by (auto simp: check_sla_breaches_def split: sum.splits)
  from scan_loop_Inl [OF run] obtain rows1 row rows2 x where
    "breach_candidates now db0 = rows1 @ row # rows2"
    "out = List.map_filter row_message rows1" "row_message row = Some x" "\<not> d x"
    by auto
  with \<open>db1 = db0\<close> show ?thesis
    by (auto simp: map_filter_append set_map_filter)
qed

lemma check_sla_breaches_out:
  assumes "check_sla_breaches d now db0 = (db1, out, r)"
  shows "subseq out (List.map_filter row_message (breach_candidates now db0))"
proof (cases r)
  case (Success n m)
  with check_sla_breaches_Success assms show ?thesis by auto
next
  case Error
  with check_sla_breaches_Error [of d now db0 db1 out] assms show ?thesis
    by (auto simp: prefix_def)
qed

lemma candidate_incident_ids:
  "map (\<lambda>(s, i, u). inc_id i) (breach_candidates now db0)
     = map incident_id (map fst (breach_candidates now db0))"
  by (auto dest: breach_candidates_D)

lemma out_ids_subseq:
  assumes "check_sla_breaches d now db0 = (db1, out, r)"
  shows "subseq (map n_incident_id out) (map incident_id (slas db0))"
proof -
  have "subseq (map n_incident_id out)
          (map n_incident_id (List.map_filter row_message (breach_candidates now db0)))"
    using check_sla_breaches_out [OF assms] by (rule subseq_map)
  also have "subseq \<dots> (map incident_id (map fst (breach_candidates now db0)))"
    using message_ids_subseq [of "breach_candidates now db0"]
    by (simp only: candidate_incident_ids)
  also have "subseq \<dots> (map incident_id (slas db0))"
    using subseq_breach_candidates by (rule subseq_map)
  finally show ?thesis .
qed

lemma out_candidate:
  assumes "check_sla_breaches d now db0 = (db1, out, r)" and "x \<in> set out"
  shows "\<exists>s i u. (s, i, u) \<in> set (breach_candidates now db0) \<and> n_incident_id x = incident_id s"
proof -
  from subseq_set [OF check_sla_breaches_out [OF assms(1)]] assms(2)
  obtain row where "row \<in> set (breach_candidates now db0)" "row_message row = Some x"
    by (auto simp: set_map_filter)
  moreover obtain s i u where row: "row = (s, i, u)" by (cases row)
  ultimately have c: "(s, i, u) \<in> set (breach_candidates now db0)"
    and "n_incident_id x = inc_id i"
    by (simp_all add: row_message_incident)
  with breach_candidates_D [OF c] have "n_incident_id x = incident_id s" by simp
  with c show ?thesis by blast
qed

lemma incident_id_mark_ids [simp]: "map incident_id (mark_ids now ks rows) = map incident_id rows"
  by (simp add: mark_ids_def mark_breached_def)

lemma distinct_map_filter_le1:
  "distinct (map f xs) \<Longrightarrow> length (filter (\<lambda>x. f x = k) xs) \<le> 1"
proof (induction xs)
  case Nil
  show ?case by simp
next
  case (Cons a xs)
  show ?case
  proof (cases "f a = k")
    case True
    with Cons.prems have "k \<notin> f ` set xs" by simp
    then have "filter (\<lambda>x. f x = k) xs = []"
      unfolding filter_empty_conv by blast
    with True show ?thesis by simp
  next
    case False
    with Cons show ?thesis by simp
  qed
qed

text \<open>
  When the first run reaches its commit, the guard holds: with distinct incident ids of
  the SLA rows (the column is declared unique), that run and a second run on the
  database it leaves enqueue together at most one message for any incident.
\<close>

lemma at_most_once_after_commit:
  assumes uniq: "distinct (map incident_id (slas db0))"
      and run1: "check_sla_breaches d1 now1 db0 = (db1, out1, Success n m)"
      and run2: "check_sla_breaches d2 now2 db1 = (db2, out2, r2)"
  shows "length (filter (\<lambda>x. n_incident_id x = k) (out1 @ out2)) \<le> 1"
proof -
  let ?K = "sla_id ` fst ` set (breach_candidates now1 db0)"
  from check_sla_breaches_Success [OF run1]
  have db1: "slas db1 = mark_ids now1 ?K (slas db0)" by simp
  have d1: "distinct (map n_incident_id out1)"
    using out_ids_subseq [OF run1] uniq by (rule subseq_distinct)
  have d2: "distinct (map n_incident_id out2)"
    using out_ids_subseq [OF run2] uniq by (auto simp: db1 intro: subseq_distinct)
  have disj: "n_incident_id x \<noteq> n_incident_id y" if x: "x \<in> set out1" and y: "y \<in> set out2" for x y
  proof
    assume eq: "n_incident_id x = n_incident_id y"
    from out_candidate [OF run1 x] obtain s i u where
      c1: "(s, i, u) \<in> set (breach_candidates now1 db0)" and xs: "n_incident_id x = incident_id s"
      by blast
    from out_candidate [OF run2 y] obtain s' i' u' where
      c2: "(s', i', u') \<in> set (breach_candidates now2 db1)" and ys: "n_incident_id y = incident_id s'"
      by blast
    from breach_candidates_D [OF c1] have s: "s \<in> set (slas db0)" by simp
    from c1 have sK: "sla_id s \<in> ?K" by force
    from breach_candidates_D [OF c2] have s': "s' \<in> set (slas db1)" and act: "sla_status s' = ACTIVE"
      by (simp_all add: breach_where_def)
    from s' have "s' \<in> (\<lambda>r. if sla_id r \<in> ?K then mark_breached now1 r else r) ` set (slas db0)"
      by (simp add: db1 mark_ids_def)
    then obtain r where r: "r \<in> set (slas db0)"
      and s'r: "s' = (if sla_id r \<in> ?K then mark_breached now1 r else r)"
      by blast
    from s'r have "incident_id s' = incident_id r" by (simp add: mark_breached_def)
    with eq xs ys have "incident_id r = incident_id s" by simp
    with uniq r s have "r = s" by (auto simp: distinct_map dest: inj_onD)
    with s'r sK have "sla_status s' = BREACHED" by (simp add: mark_breached_def)
    with act show False by simp
  qed
  have "distinct (map n_incident_id (out1 @ out2))"
    using d1 d2 disj by auto
  then show ?thesis by (rule distinct_map_filter_le1)
qed

text \<open>
  C2. The code at the failing input. On the example data the queue refuses the message
  for incident 2 during the first run and accepts every message during the second.
  The first run enqueues the message for incident 1, fails on the second candidate
  before the commit and leaves the database as it was; the second run, on that
  database, selects the SLA of incident 1 again and enqueues a second message for it.
  The two runs emit two BREACH messages for that SLA, where the claim allows one.
\<close>

theorem breach_scan_twice_duplicate:
  "distinct (map incident_id (slas ex_db))
   \<and> check_sla_breaches (\<lambda>x. n_incident_id x \<noteq> 2) 200 ex_db = (ex_db, [ex_message 1], Error)
   \<and> check_sla_breaches (\<lambda>x. True) 200 ex_db =
       (ex_db\<lparr>slas := [(ex_sla 1)\<lparr>sla_status := BREACHED, breach_notified_at := Some 200\<rparr>,
                         (ex_sla 2)\<lparr>sla_status := BREACHED, breach_notified_at := Some 200\<rparr>]\<rparr>,
        [ex_message 1, ex_message 2], Success 2 2)
   \<and> length (filter (\<lambda>x. n_incident_id x = incident_id (ex_sla 1))
        (fst (snd (check_sla_breaches (\<lambda>x. n_incident_id x \<noteq> 2) 200 ex_db))
         @ fst (snd (check_sla_breaches (\<lambda>x. True) 200
                  (fst (check_sla_breaches (\<lambda>x. n_incident_id x \<noteq> 2) 200 ex_db)))))) = 2"
  by (simp add: scan_defs ex_defs)

section \<open>A run of the scanner\<close>






text \<open>
  C5. The code at the failing input. The statement of the scanner has no condition on
  \<open>Incident.deleted_at\<close>. For a soft-deleted incident, which \<open>get_incident\<close> no longer
  returns, the SLA is selected, marked BREACHED, and a message is enqueued for its
  assignee; the claim says that it is never selected, transitioned or notified.
\<close>

theorem check_sla_breaches_selects_deleted:
  "incidents ex_deleted_db = [(ex_incident 1)\<lparr>deleted_at := Some 10\<rparr>]
   \<and> get_incident ex_deleted_db 1 = None
   \<and> map fst (breach_candidates 200 ex_deleted_db) = [ex_sla 1]
   \<and> check_sla_breaches (\<lambda>x. True) 200 ex_deleted_db =
       (ex_deleted_db\<lparr>slas := [(ex_sla 1)\<lparr>sla_status := BREACHED, breach_notified_at := Some 200\<rparr>]\<rparr>,
        [ex_message 1], Success 1 1)"
  by (simp add: scan_defs ex_defs ex_deleted_db_def get_incident_def)

section \<open>One matched SLA\<close>

text \<open>The loop body on one result row, whatever the row.\<close>

lemma process_row_body:
  "(\<forall>st'. process_row d now (sla, incident, assignee) st = Inr st' \<longrightarrow>
       pending st' = map (\<lambda>r. if sla_id r = sla_id sla
                               then r\<lparr>sla_status := BREACHED, breach_notified_at := Some now\<rparr>
                               else r) (pending st)
       \<and> breaches_detected st' = breaches_detected st + 1
       \<and> queue st' = queue st @
           (case assignee of
              None \<Rightarrow> []
            | Some u \<Rightarrow>
                if email u = [] then []
                else [\<lparr>n_incident_id = inc_id incident, n_assignee_email = email u,
                       n_breach_type = (if response_at sla = None then ''Response'' else ''Resolution'')\<rparr>])
       \<and> notifications_sent st' = notifications_sent st +
           (case assignee of None \<Rightarrow> 0 | Some u \<Rightarrow> if email u = [] then 0 else 1))
   \<and> ((assignee = None
        \<or> (\<exists>u. assignee = Some u
              \<and> (email u = []
                 \<or> d \<lparr>n_incident_id = inc_id incident, n_assignee_email = email u,
                       n_breach_type = (if response_at sla = None then ''Response'' else ''Resolution'')\<rparr>)))
       \<longrightarrow> (\<exists>st'. process_row d now (sla, incident, assignee) st = Inr st'))
   \<and> (\<forall>q. process_row d now (sla, incident, assignee) st = Inl q \<longrightarrow>
         q = queue st
         \<and> (\<exists>u. assignee = Some u \<and> email u \<noteq> []
               \<and> \<not> d \<lparr>n_incident_id = inc_id incident, n_assignee_email = email u,
                        n_breach_type = (if response_at sla = None then ''Response'' else ''Resolution'')\<rparr>))"
  by (cases assignee)
     (auto simp: process_row_def update_sla_row_def mark_breached_def breach_type_of_def Let_def
           split: if_splits)









section \<open>The derived queries\<close>

text \<open>
  C4, as the code has it. \<open>is_resolution_breached\<close> holds exactly when the status is
  not MET and \<open>now\<close> is after \<open>resolution_deadline\<close>; the accumulated paused duration
  plays no part. \<open>is_response_breached\<close> holds exactly when \<open>response_at\<close> is unset and
  \<open>now\<close> is after \<open>response_deadline\<close>.
\<close>

theorem breach_queries_ignore_pause:
  "is_resolution_breached now sla = (sla_status sla \<noteq> MET \<and> now > resolution_deadline sla)
   \<and> is_response_breached now sla = (response_at sla = None \<and> now > response_deadline sla)"
  by (simp add: is_resolution_breached_def is_response_breached_def)

text \<open>
  C4 as stated fails: with a resolution deadline of 100 and 50 of accumulated pause, at
  time 120 the query answers true although 120 is not after 100 + 50.
\<close>

theorem is_resolution_breached_counterexample:
  "is_resolution_breached 120 ((ex_sla 1)\<lparr>paused_duration := 50\<rparr>)
   \<and> \<not> (sla_status ((ex_sla 1)\<lparr>paused_duration := 50\<rparr>) \<noteq> MET
         \<and> 120 > resolution_deadline ((ex_sla 1)\<lparr>paused_duration := 50\<rparr>)
                   + paused_duration ((ex_sla 1)\<lparr>paused_duration := 50\<rparr>))"
  by (simp add: is_resolution_breached_def ex_sla_def)

section \<open>Resolving an incident\<close>

lemma find_map_inv:
  "(\<And>x. P (f x) = P x) \<Longrightarrow> find P (map f xs) = map_option f (find P xs)"
  by (induction xs) auto

lemma incident_sla_update:
  assumes "\<And>r. incident_id (f r) = incident_id r"
  shows "incident_sla (d\<lparr>incidents := rows, slas := update_sla_row k f (slas d)\<rparr>) incident
     = map_option (\<lambda>r. if sla_id r = k then f r else r) (incident_sla d incident)"
  unfolding incident_sla_def update_sla_row_def
  by (simp add: find_map_inv assms)

text \<open>
  What \<open>update_status\<close> to RESOLVED does to the SLA of a live incident: it sets the
  status MET if the incident had no \<open>resolved_at\<close> yet, and leaves the SLA as it was
  otherwise. The time of the call is not looked at.
\<close>

lemma update_status_sla_after:
  assumes "get_incident d k = Some incident"
      and "incident_sla d incident = Some sla"
  shows "incident_sla (fst (update_status d k RESOLVED now)) incident
           = Some (if resolved_at incident = None then sla\<lparr>sla_status := MET\<rparr> else sla)"
proof (cases "resolved_at incident = None")
  case True
  with assms show ?thesis
    by (simp add: update_status_def resolving_def incident_sla_update)
next
  case False
  then obtain t where "resolved_at incident = Some t" by auto
  with assms show ?thesis
    by (simp add: update_status_def resolving_def incident_sla_def)
qed

text \<open>
  C1. The code at the failing input. The SLA of incident 1 is ACTIVE with resolution
  deadline 100 and no accumulated pause, so its effective deadline is 100. Resolving
  the incident at time 200, past that deadline, sets the SLA to MET; resolving it at
  time 70, before the deadline, sets it to MET as well. The claim says that the late
  resolution leaves the status unchanged.
\<close>

theorem update_status_late_resolution_met:
  "sla_status (ex_sla 1) = ACTIVE
   \<and> resolution_deadline (ex_sla 1) + paused_duration (ex_sla 1) = 100
   \<and> get_incident ex_db 1 = Some (ex_incident 1)
   \<and> incident_sla ex_db (ex_incident 1) = Some (ex_sla 1)
   \<and> incident_sla (fst (update_status ex_db 1 RESOLVED 200)) (ex_incident 1)
       = Some ((ex_sla 1)\<lparr>sla_status := MET\<rparr>)
   \<and> incident_sla (fst (update_status ex_db 1 RESOLVED 70)) (ex_incident 1)
       = Some ((ex_sla 1)\<lparr>sla_status := MET\<rparr>)"
  by (simp add: update_status_def get_incident_def incident_sla_def resolving_def
      update_sla_row_def ex_defs)

lemma find_SomeD': "find P xs = Some x \<Longrightarrow> P x"
  by (induction xs) (auto split: if_splits)

text \<open>
  C10. For a live incident without an SLA, \<open>update_status\<close> to RESOLVED returns the
  incident with status RESOLVED and with \<open>resolved_at\<close> set to the current time if it
  was unset (kept otherwise); the stored row is that incident, and the SLA table is not
  touched. The function has no failing branch.
\<close>

theorem update_status_resolved_without_sla:
  assumes "get_incident d k = Some incident"
      and "incident_sla d incident = None"
  shows "\<exists>d'. update_status d k RESOLVED now =
            (d', Some (incident\<lparr>inc_status := RESOLVED,
                         resolved_at := Some (case resolved_at incident of None \<Rightarrow> now | Some t \<Rightarrow> t)\<rparr>))
          \<and> slas d' = slas d \<and> users d' = users d
          \<and> get_incident d' k =
              Some (incident\<lparr>inc_status := RESOLVED,
                      resolved_at := Some (case resolved_at incident of None \<Rightarrow> now | Some t \<Rightarrow> t)\<rparr>)"
proof -
  let ?f = "set_status_fields RESOLVED now"
  have f: "?f i = i\<lparr>inc_status := RESOLVED,
                      resolved_at := Some (case resolved_at i of None \<Rightarrow> now | Some t \<Rightarrow> t)\<rparr>" for i
    by (cases "resolved_at i") (simp_all add: set_status_fields_def)
  from assms(1) have k: "inc_id incident = k"
    unfolding get_incident_def by (auto dest: find_SomeD')
  have "get_incident (d\<lparr>incidents := update_incident_row k ?f (incidents d), slas := slas d\<rparr>) k
          = map_option (\<lambda>r. if inc_id r = k then ?f r else r) (get_incident d k)"
    unfolding get_incident_def update_incident_row_def
    by (simp add: find_map_inv f)
  with assms k show ?thesis
    by (simp add: update_status_def f)
qed

theorem update_status_resolved_without_sla_witness:
  "get_incident (ex_db\<lparr>slas := []\<rparr>) 1 = Some (ex_incident 1)
   \<and> incident_sla (ex_db\<lparr>slas := []\<rparr>) (ex_incident 1) = None
   \<and> snd (update_status (ex_db\<lparr>slas := []\<rparr>) 1 RESOLVED 70)
       = Some ((ex_incident 1)\<lparr>inc_status := RESOLVED, resolved_at := Some 70\<rparr>)"
proof -
  have g: "get_incident (ex_db\<lparr>slas := []\<rparr>) 1 = Some (ex_incident 1)"
    by (simp add: get_incident_def ex_defs)
  have s: "incident_sla (ex_db\<lparr>slas := []\<rparr>) (ex_incident 1) = None"
    by (simp add: incident_sla_def ex_defs)
  have "resolved_at (ex_incident 1) = None" by (simp add: ex_defs)
  with update_status_resolved_without_sla [OF g s, of 70] g s show ?thesis by auto
qed

section \<open>Creating an incident\<close>

lemma add_hours_in_range:
  assumes "- 999999999 \<le> h div 24" and "h div 24 \<le> 999999999"
      and "datetime_min \<le> now + 3600000000 * h" and "now + 3600000000 * h \<le> datetime_max"
  shows "add_hours now h = Inr (now + 3600000000 * h)"
  using assms by (simp add: add_hours_def timedelta_hours_def datetime_add_def mult.commute)

text \<open>
  C8. Let \<open>rh\<close> and \<open>sh\<close> be the response and resolution hours that the settings hold
  for the priority of the request, and let both deadlines be representable (the hours
  within the range of a \<open>timedelta\<close>, the sums within the range of a \<open>datetime\<close>). Then
  \<open>create_incident\<close> succeeds and adds one incident row and one SLA row in its single
  commit. The SLA refers to the new incident, is ACTIVE, and its deadlines are the
  creation time plus \<open>rh\<close> hours and plus \<open>sh\<close> hours (an hour is 3600000000
  microseconds). When no earlier SLA refers to the fresh incident id, it is the only
  SLA of the incident.
\<close>

theorem create_incident_one_sla:
  assumes rh: "rh = (case ic_priority incident_data of
                       CRITICAL \<Rightarrow> sla_critical_response cfg
                     | HIGH \<Rightarrow> sla_high_response cfg
                     | MEDIUM \<Rightarrow> sla_medium_response cfg
                     | LOW \<Rightarrow> sla_low_response cfg)"
      and sh: "sh = (case ic_priority incident_data of
                       CRITICAL \<Rightarrow> sla_critical_resolution cfg
                     | HIGH \<Rightarrow> sla_high_resolution cfg
                     | MEDIUM \<Rightarrow> sla_medium_resolution cfg
                     | LOW \<Rightarrow> sla_low_resolution cfg)"
      and range: "\<forall>h \<in> {rh, sh}.
                    - 999999999 \<le> h div 24 \<and> h div 24 \<le> 999999999
                    \<and> datetime_min \<le> now + 3600000000 * h
                    \<and> now + 3600000000 * h \<le> datetime_max"
  shows "\<exists>d' incident sla.
      create_incident cfg d incident_data reporter now new_incident_id new_sla_id
        = Inr (d', incident)
      \<and> incident = \<lparr>inc_id = new_incident_id, title = ic_title incident_data,
                     description = ic_description incident_data, inc_status = OPEN,
                     priority = ic_priority incident_data, reporter_id = reporter,
                     assignee_id = None, resolved_at = None, closed_at = None,
                     deleted_at = None\<rparr>
      \<and> incidents d' = incidents d @ [incident]
      \<and> slas d' = slas d @ [sla]
      \<and> users d' = users d
      \<and> sla = \<lparr>sla_id = new_sla_id, incident_id = new_incident_id,
                response_deadline = now + 3600000000 * rh,
                resolution_deadline = now + 3600000000 * sh,
                sla_status = ACTIVE, response_at = None, paused_at = None, paused_duration = 0,
                breach_notified_at = None\<rparr>
      \<and> ((\<forall>s \<in> set (slas d). incident_id s \<noteq> new_incident_id) \<longrightarrow>
           filter (\<lambda>s. incident_id s = new_incident_id) (slas d') = [sla])"
proof -
  have hours: "get_sla_deadlines cfg (priority_value (ic_priority incident_data))
                 = \<lparr>response_hours = rh, resolution_hours = sh\<rparr>"
    unfolding rh sh by (cases "ic_priority incident_data") (simp_all add: get_sla_deadlines_def)
  from range have "add_hours now rh = Inr (now + 3600000000 * rh)"
    and "add_hours now sh = Inr (now + 3600000000 * sh)"
    by (simp_all add: add_hours_in_range)
  with hours show ?thesis
    by (simp add: create_incident_def Let_def filter_empty_conv)
qed

text \<open>
  A CRITICAL and a LOW incident created at time 1000 with the default settings: the
  deadlines are 1 and 4 hours, and 24 and 168 hours, after 1000.
\<close>

theorem create_incident_one_sla_witness:
  "map incident_id (slas ex_db) = [1, 2]
   \<and> (\<exists>d' i. create_incident default_settings ex_db
                 \<lparr>ic_title = ''Disk'', ic_description = ''Disk full'', ic_priority = CRITICAL\<rparr>
                 3 1000 5 15 = Inr (d', i)
          \<and> filter (\<lambda>s. incident_id s = 5) (slas d')
              = [\<lparr>sla_id = 15, incident_id = 5, response_deadline = 3600001000,
                  resolution_deadline = 14400001000, sla_status = ACTIVE, response_at = None,
                  paused_at = None, paused_duration = 0, breach_notified_at = None\<rparr>])
   \<and> (\<exists>d' i. create_incident default_settings ex_db
                 \<lparr>ic_title = ''Typo'', ic_description = ''Typo in footer'', ic_priority = LOW\<rparr>
                 3 1000 6 16 = Inr (d', i)
          \<and> filter (\<lambda>s. incident_id s = 6) (slas d')
              = [\<lparr>sla_id = 16, incident_id = 6, response_deadline = 86400001000,
                  resolution_deadline = 604800001000, sla_status = ACTIVE, response_at = None,
                  paused_at = None, paused_duration = 0, breach_notified_at = None\<rparr>])"
proof -
  let ?c = "\<lparr>ic_title = ''Disk'', ic_description = ''Disk full'', ic_priority = CRITICAL\<rparr>"
  let ?l = "\<lparr>ic_title = ''Typo'', ic_description = ''Typo in footer'', ic_priority = LOW\<rparr>"
  have ids: "map incident_id (slas ex_db) = [1, 2]" by (simp add: ex_defs)
  have fresh5: "\<forall>s \<in> set (slas ex_db). incident_id s \<noteq> 5"
    and fresh6: "\<forall>s \<in> set (slas ex_db). incident_id s \<noteq> 6"
    by (simp_all add: ex_defs)
  have c_rh: "1 = (case ic_priority ?c of
                     CRITICAL \<Rightarrow> sla_critical_response default_settings
                   | HIGH \<Rightarrow> sla_high_response default_settings
                   | MEDIUM \<Rightarrow> sla_medium_response default_settings
                   | LOW \<Rightarrow> sla_low_response default_settings)"
    and c_sh: "4 = (case ic_priority ?c of
                     CRITICAL \<Rightarrow> sla_critical_resolution default_settings
                   | HIGH \<Rightarrow> sla_high_resolution default_settings
                   | MEDIUM \<Rightarrow> sla_medium_resolution default_settings
                   | LOW \<Rightarrow> sla_low_resolution default_settings)"
    and l_rh: "24 = (case ic_priority ?l of
                     CRITICAL \<Rightarrow> sla_critical_response default_settings
                   | HIGH \<Rightarrow> sla_high_response default_settings
                   | MEDIUM \<Rightarrow> sla_medium_response default_settings
                   | LOW \<Rightarrow> sla_low_response default_settings)"
    and l_sh: "168 = (case ic_priority ?l of
                     CRITICAL \<Rightarrow> sla_critical_resolution default_settings
                   | HIGH \<Rightarrow> sla_high_resolution default_settings
                   | MEDIUM \<Rightarrow> sla_medium_resolution default_settings
                   | LOW \<Rightarrow> sla_low_resolution default_settings)"
    by (simp_all add: default_settings_def)
  have c_range: "\<forall>h \<in> {1, 4 :: int}.
                    - 999999999 \<le> h div 24 \<and> h div 24 \<le> 999999999
                    \<and> datetime_min \<le> 1000 + 3600000000 * h
                    \<and> 1000 + 3600000000 * h \<le> datetime_max"
    and l_range: "\<forall>h \<in> {24, 168 :: int}.
                    - 999999999 \<le> h div 24 \<and> h div 24 \<le> 999999999
                    \<and> datetime_min \<le> 1000 + 3600000000 * h
                    \<and> 1000 + 3600000000 * h \<le> datetime_max"
    by (simp_all add: datetime_min_def datetime_max_def)
  from create_incident_one_sla [OF c_rh c_sh c_range, of ex_db 3 5 15] fresh5
  obtain d1 i1 where "create_incident default_settings ex_db ?c 3 1000 5 15 = Inr (d1, i1)"
    and "filter (\<lambda>s. incident_id s = 5) (slas d1)
           = [\<lparr>sla_id = 15, incident_id = 5, response_deadline = 1000 + 3600000000 * 1,
               resolution_deadline = 1000 + 3600000000 * 4, sla_status = ACTIVE,
               response_at = None, paused_at = None, paused_duration = 0,
               breach_notified_at = None\<rparr>]"
    by blast
  moreover
  from create_incident_one_sla [OF l_rh l_sh l_range, of ex_db 3 6 16] fresh6
  obtain d2 i2 where "create_incident default_settings ex_db ?l 3 1000 6 16 = Inr (d2, i2)"
    and "filter (\<lambda>s. incident_id s = 6) (slas d2)
           = [\<lparr>sla_id = 16, incident_id = 6, response_deadline = 1000 + 3600000000 * 24,
               resolution_deadline = 1000 + 3600000000 * 168, sla_status = ACTIVE,
               response_at = None, paused_at = None, paused_duration = 0,
               breach_notified_at = None\<rparr>]"
    by blast
  ultimately show ?thesis using ids by simp
qed

section \<open>Pause and resume\<close>

text \<open>
  C9. From ACTIVE, \<open>pause\<close> at \<open>t\<close> succeeds, and \<open>resume\<close> at \<open>t + D\<close> then gives the
  SLA with \<open>D\<close> added to the accumulated paused duration, \<open>paused_at\<close> cleared and the
  status ACTIVE. On an SLA that is not PAUSED, \<open>resume\<close> fails with an explicit error
  and returns no changed SLA.
\<close>

theorem pause_resume_adds_duration:
  "(sla_status sla = ACTIVE \<longrightarrow>
      (\<exists>s1. pause t sla = Inr s1 \<and> sla_status s1 = PAUSED \<and> paused_at s1 = Some t
         \<and> resume (t + D) s1 =
             Inr (sla\<lparr>paused_duration := paused_duration sla + D, paused_at := None,
                      sla_status := ACTIVE\<rparr>)))
   \<and> (sla_status sla \<noteq> PAUSED \<longrightarrow> resume now sla = Inl InvalidTransition)"
  by (simp add: pause_def resume_def)

theorem pause_resume_adds_duration_witness:
  "sla_status (ex_sla 1) = ACTIVE
   \<and> (\<exists>s1. pause 20 (ex_sla 1) = Inr s1
        \<and> resume (20 + 15) s1 = Inr ((ex_sla 1)\<lparr>paused_duration := 15\<rparr>))
   \<and> resume 35 (ex_sla 1) = Inl InvalidTransition"
proof -
  have a: "sla_status (ex_sla 1) = ACTIVE" by (simp add: ex_sla_def)
  have e: "(ex_sla 1)\<lparr>paused_duration := paused_duration (ex_sla 1) + 15, paused_at := None,
              sla_status := ACTIVE\<rparr> = (ex_sla 1)\<lparr>paused_duration := 15\<rparr>"
    by (simp add: ex_sla_def)
  from pause_resume_adds_duration [of "ex_sla 1" 20 15 35] a e show ?thesis by auto
qed

end